theory Spec2Isabelle
  imports
    Complex_Main
    "HOL-Library.Word"
    "HOL-Library.Signed_Division"
    "HOL-Library.Multiset"
    "HOL-Library.Char_ord"
    "HOL-Library.List_Lexorder"
begin

section \<open>Registry: service instances and their comparison\<close>

text \<open>
  \<^verbatim>\<open>registry.ServiceInstance\<close> is a struct of three strings, a string map and a
  slice of endpoint strings. Go strings are byte sequences compared bytewise, which is
  the lexicographic order of \<^typ>\<open>string\<close> over the byte order of \<^typ>\<open>char\<close>.
  The metadata map is kept as an association list holding one pair per key, so that
  \<^verbatim>\<open>len\<close> is the length of the list and \<^verbatim>\<open>range\<close> visits every pair.
\<close>

record ServiceInstance =
  ID :: string
  Name :: string
  Version :: string
  Metadata :: "(string \<times> string) list"
  Endpoints :: "string list"

text \<open>
  \<^verbatim>\<open>Equal\<close> receives pointers and sorts the endpoint slices where they are, so the
  instances live in a store indexed by address. The receiver is a possibly nil pointer;
  the argument is an \<^verbatim>\<open>interface{}\<close>: the nil interface, a possibly nil
  \<^verbatim>\<open>*ServiceInstance\<close>, or a value of some other dynamic type.
\<close>

type_synonym addr = nat

type_synonym instance_store = "addr \<Rightarrow> ServiceInstance option"

datatype iface = NilInterface | InstancePtr "addr option" | OtherValue

datatype panic = NilDereference | TypeAssertionFailed

text \<open>\<^verbatim>\<open>t.Metadata[k]\<close>: a missing key reads as the empty string.\<close>

definition metadata_get :: "(string \<times> string) list \<Rightarrow> string \<Rightarrow> string" where
  "metadata_get m k = (case map_of m k of None \<Rightarrow> [] | Some v \<Rightarrow> v)"

text \<open>
  \<^verbatim>\<open>sort.Strings\<close> puts a slice in ascending order in place. A list of strings has
  exactly one ascending arrangement, so the result is \<^term>\<open>sort\<close> of the slice
  whatever algorithm the library runs.
\<close>

definition sort_Strings :: "instance_store \<Rightarrow> addr \<Rightarrow> instance_store" where
  "sort_Strings h a =
     (case h a of
        None \<Rightarrow> h
      | Some x \<Rightarrow> h(a \<mapsto> x\<lparr>Endpoints := sort (Endpoints x)\<rparr>))"

text \<open>
  \<^verbatim>\<open>func (i *ServiceInstance) Equal(o interface{}) bool\<close>, returning the answer
  together with the store it leaves behind. Dereferencing a nil pointer panics.
\<close>

definition Equal :: "instance_store \<Rightarrow> addr option \<Rightarrow> iface \<Rightarrow> panic + (bool \<times> instance_store)" where
  "Equal h i o' =
     (if i = None \<and> o' = NilInterface then Inr (True, h)
      else if i = None \<or> o' = NilInterface then Inr (False, h)
      else case o' of
        OtherValue \<Rightarrow> Inr (False, h)
      | NilInterface \<Rightarrow> Inr (False, h)
      | InstancePtr t \<Rightarrow>
         (case (i, t) of
            (Some ia, Some ta) \<Rightarrow>
              (case (h ia, h ta) of
                 (Some iv, Some tv) \<Rightarrow>
                   if length (Endpoints iv) \<noteq> length (Endpoints tv) then Inr (False, h)
                   else
                     let h1 = sort_Strings h ia;
                         h2 = sort_Strings h1 ta
                     in (case (h2 ia, h2 ta) of
                           (Some iv', Some tv') \<Rightarrow>
                             if Endpoints iv' \<noteq> Endpoints tv' then Inr (False, h2)
                             else if length (Metadata iv') \<noteq> length (Metadata tv') then Inr (False, h2)
                             else if \<not> list_all (\<lambda>(k, v). v = metadata_get (Metadata tv') k) (Metadata iv')
                               then Inr (False, h2)
                             else Inr (ID iv' = ID tv' \<and> Name iv' = Name tv' \<and> Version iv' = Version tv', h2)
                         | _ \<Rightarrow> Inl NilDereference)
               | _ \<Rightarrow> Inl NilDereference)
          | _ \<Rightarrow> Inl NilDereference))"


section \<open>HTTP resolver: from a discovery snapshot to the selector\<close>

text \<open>
  \<^verbatim>\<open>resolver.update\<close> calls four functions declared outside the files at hand:
  \<^verbatim>\<open>endpoint.ParseEndpoint\<close> and \<^verbatim>\<open>endpoint.Scheme\<close>, \<^verbatim>\<open>subset.Subset\<close>,
  \<^verbatim>\<open>selector.NewNode\<close>, and the \<^verbatim>\<open>Apply\<close> method of the \<^verbatim>\<open>Rebalancer\<close>
  interface. They are parameters of the model. \<^verbatim>\<open>ParseEndpoint\<close> returns a Go pair
  of a string and an error, \<open>None\<close> standing for the nil error.
\<close>

record ('e, 'n, 's) resolver_deps =
  ParseEndpoint :: "string list \<Rightarrow> string \<Rightarrow> string \<times> 'e option"
  Scheme :: "string \<Rightarrow> bool \<Rightarrow> string"
  Subset :: "string \<Rightarrow> ServiceInstance list \<Rightarrow> int \<Rightarrow> ServiceInstance list"
  NewNode :: "string \<Rightarrow> string \<Rightarrow> ServiceInstance \<Rightarrow> 'n"
  rebalancer_Apply :: "'n list \<Rightarrow> 's \<Rightarrow> 's"

record resolver =
  selecterKey :: string
  subsetSize :: int
  insecure :: bool

text \<open>The first loop of \<^verbatim>\<open>update\<close>: keep the instances with a usable endpoint.\<close>

fun filter_instances ::
  "('e, 'n, 's) resolver_deps \<Rightarrow> resolver \<Rightarrow> ServiceInstance list \<Rightarrow> ServiceInstance list" where
  "filter_instances d r [] = []"
| "filter_instances d r (ins # services) =
     (case ParseEndpoint d (Endpoints ins) (Scheme d ''http'' (\<not> insecure r)) of
        (ept, Some err) \<Rightarrow> filter_instances d r services
      | (ept, None) \<Rightarrow>
          if ept = [] then filter_instances d r services
          else ins # filter_instances d r services)"

text \<open>
  An instance is discarded by the first loop of \<^verbatim>\<open>update\<close> when its endpoints do
  not parse or give an empty address.
\<close>

definition discarded :: "('e, 'n, 's) resolver_deps \<Rightarrow> resolver \<Rightarrow> ServiceInstance \<Rightarrow> bool" where
  "discarded d r ins =
     (case ParseEndpoint d (Endpoints ins) (Scheme d ''http'' (\<not> insecure r)) of
        (ept, Some err) \<Rightarrow> True
      | (ept, None) \<Rightarrow> ept = [])"

text \<open>The guarded call of \<^verbatim>\<open>subset.Subset\<close> (the test is \<^verbatim>\<open>r.subsetSize != 0\<close>).\<close>

definition subset_stage ::
  "('e, 'n, 's) resolver_deps \<Rightarrow> resolver \<Rightarrow> ServiceInstance list \<Rightarrow> ServiceInstance list" where
  "subset_stage d r filtered =
     (if subsetSize r \<noteq> 0 then Subset d (selecterKey r) filtered (subsetSize r) else filtered)"

text \<open>The second loop: one node per remaining instance, the parse error dropped.\<close>

definition build_nodes ::
  "('e, 'n, 's) resolver_deps \<Rightarrow> resolver \<Rightarrow> ServiceInstance list \<Rightarrow> 'n list" where
  "build_nodes d r filtered =
     map (\<lambda>ins. NewNode d ''http''
                 (fst (ParseEndpoint d (Endpoints ins) (Scheme d ''http'' (\<not> insecure r)))) ins)
         filtered"

text \<open>The node list that \<^verbatim>\<open>update\<close> ends up with, its ``effective node set''.\<close>

definition effective_nodes ::
  "('e, 'n, 's) resolver_deps \<Rightarrow> resolver \<Rightarrow> ServiceInstance list \<Rightarrow> 'n list" where
  "effective_nodes d r services = build_nodes d r (subset_stage d r (filter_instances d r services))"

text \<open>
  \<^verbatim>\<open>update\<close> itself, on the state \<open>st\<close> of the rebalancer it points to: the boolean it
  returns and the state of the rebalancer afterwards.
\<close>

definition update ::
  "('e, 'n, 's) resolver_deps \<Rightarrow> resolver \<Rightarrow> ServiceInstance list \<Rightarrow> 's \<Rightarrow> bool \<times> 's" where
  "update d r services st =
     (let nodes = effective_nodes d r services
      in if length nodes = 0 then (False, st)
         else (True, rebalancer_Apply d nodes st))"

text \<open>
  The reading of the guard given in the specification (``if \<open>subsetSize > 0\<close>, apply
  Subset''), to be compared with \<^const>\<open>subset_stage\<close>.
\<close>

definition subset_stage_spec ::
  "('e, 'n, 's) resolver_deps \<Rightarrow> resolver \<Rightarrow> ServiceInstance list \<Rightarrow> ServiceInstance list" where
  "subset_stage_spec d r filtered =
     (if subsetSize r > 0 then Subset d (selecterKey r) filtered (subsetSize r) else filtered)"

section \<open>The default selector\<close>

text \<open>
  A value of interface type \<^verbatim>\<open>selector.Node\<close> is either some plain node or a
  \<^verbatim>\<open>WeightedNode\<close>; the type assertion \<^verbatim>\<open>n.(WeightedNode)\<close> panics on the former.
\<close>

datatype ('n, 'w) selector_Node = PlainNode 'n | AsWeightedNode 'w

datatype 'e error = ErrNoAvailable | OtherError 'e

text \<open>
  The context carries the values that filters read and, possibly, a peer whose
  \<^verbatim>\<open>Node\<close> field \<^verbatim>\<open>Select\<close> fills in.
\<close>

record ('v, 'n) Context =
  ctx_values :: 'v
  ctx_peer :: "'n option option"

type_synonym ('v, 'n, 'w) NodeFilter =
  "('v, 'n) Context \<Rightarrow> ('n, 'w) selector_Node list \<Rightarrow> ('n, 'w) selector_Node list"

record ('v, 'n, 'w) SelectOptions =
  NodeFilters :: "('v, 'n, 'w) NodeFilter list"

type_synonym ('v, 'n, 'w) SelectOption =
  "('v, 'n, 'w) SelectOptions \<Rightarrow> ('v, 'n, 'w) SelectOptions"

text \<open>
  \<^verbatim>\<open>Default\<close>: the node builder, the balancer's \<^verbatim>\<open>Pick\<close> (an error, or the chosen
  node with its \<^verbatim>\<open>DoneFunc\<close>) and the atomic value \<^verbatim>\<open>nodes\<close>, \<open>None\<close> until the
  first \<^verbatim>\<open>Store\<close>.
\<close>

record ('v, 'n, 'w, 'd, 'e) Default =
  NodeBuilder :: "'n \<Rightarrow> 'w"
  Balancer :: "('v, 'n) Context \<Rightarrow> 'w list \<Rightarrow> 'e error + ('w \<times> 'd)"
  nodes :: "'w list option"

fun assert_WeightedNode :: "('n, 'w) selector_Node list \<Rightarrow> panic + 'w list" where
  "assert_WeightedNode [] = Inr []"
| "assert_WeightedNode (PlainNode n # ns) = Inl TypeAssertionFailed"
| "assert_WeightedNode (AsWeightedNode w # ns) =
     (case assert_WeightedNode ns of Inl p \<Rightarrow> Inl p | Inr ws \<Rightarrow> Inr (w # ws))"

definition apply_options :: "('v, 'n, 'w) SelectOption list \<Rightarrow> ('v, 'n, 'w) SelectOptions" where
  "apply_options opts = fold (\<lambda>o' options. o' options) opts \<lparr>NodeFilters = []\<rparr>"

definition run_filters ::
  "('v, 'n) Context \<Rightarrow> ('v, 'n, 'w) NodeFilter list \<Rightarrow> ('n, 'w) selector_Node list
     \<Rightarrow> ('n, 'w) selector_Node list" where
  "run_filters ctx filters newNodes = fold (\<lambda>filter' ns. filter' ctx ns) filters newNodes"

text \<open>The candidate slice of \<^verbatim>\<open>Select\<close> (the branch on \<^verbatim>\<open>len(options.NodeFilters)\<close>).\<close>

definition candidates_of ::
  "('v, 'n) Context \<Rightarrow> ('v, 'n, 'w) SelectOption list \<Rightarrow> 'w list \<Rightarrow> panic + 'w list" where
  "candidates_of ctx opts ns =
     (let options = apply_options opts
      in if length (NodeFilters options) > 0
         then assert_WeightedNode (run_filters ctx (NodeFilters options) (map AsWeightedNode ns))
         else Inr ns)"

text \<open>
  \<^verbatim>\<open>Select\<close>, with the \<^verbatim>\<open>Raw\<close> method of the weighted nodes as a parameter. It
  returns a panic, or the error, or the node with its \<^verbatim>\<open>DoneFunc\<close>; and the context,
  whose peer it may have written.
\<close>

definition Select ::
  "('w \<Rightarrow> 'n) \<Rightarrow> ('v, 'n, 'w, 'd, 'e) Default \<Rightarrow> ('v, 'n) Context \<Rightarrow> ('v, 'n, 'w) SelectOption list
     \<Rightarrow> (panic + ('e error + ('n \<times> 'd))) \<times> ('v, 'n) Context" where
  "Select Raw d ctx opts =
     (case nodes d of
        None \<Rightarrow> (Inr (Inl ErrNoAvailable), ctx)
      | Some ns \<Rightarrow>
          (case candidates_of ctx opts ns of
             Inl p \<Rightarrow> (Inl p, ctx)
           | Inr candidates \<Rightarrow>
               if length candidates = 0 then (Inr (Inl ErrNoAvailable), ctx)
               else (case Balancer d ctx candidates of
                       Inl err \<Rightarrow> (Inr (Inl err), ctx)
                     | Inr (wn, done) \<Rightarrow>
                         (Inr (Inr (Raw wn, done)),
                          case ctx_peer ctx of
                            None \<Rightarrow> ctx
                          | Some p \<Rightarrow> ctx\<lparr>ctx_peer := Some (Some (Raw wn))\<rparr>))))"

definition Apply :: "('v, 'n, 'w, 'd, 'e) Default \<Rightarrow> 'n list \<Rightarrow> ('v, 'n, 'w, 'd, 'e) Default" where
  "Apply d ns = d\<lparr>nodes := Some (map (NodeBuilder d) ns)\<rparr>"

text \<open>
  The filter contract of the specification: a filter returns a slice of nodes taken from
  the slice it was given.
\<close>

definition filter_narrows :: "('v, 'n) Context \<Rightarrow> ('v, 'n, 'w) NodeFilter \<Rightarrow> bool" where
  "filter_narrows ctx f = (\<forall>xs. set (f ctx xs) \<subseteq> set xs)"

section \<open>The EWMA weighted node\<close>

text \<open>
  \<^verbatim>\<open>int64\<close> and \<^verbatim>\<open>uint64\<close> are 64-bit words, read with \<^const>\<open>sint\<close> and
  \<^const>\<open>unat\<close>; their arithmetic wraps around. \<^verbatim>\<open>float64\<close> is idealised: its values
  are real numbers and its operations are exact, so the rounding error of the IEEE
  operations is not part of this model. A conversion to an integer type discards the
  fraction, as Go's conversions do.
\<close>

type_synonym int64 = "64 word"
type_synonym uint64 = "64 word"

definition float64_of_int64 :: "int64 \<Rightarrow> real" where
  "float64_of_int64 x = real_of_int (sint x)"

definition float64_of_uint64 :: "uint64 \<Rightarrow> real" where
  "float64_of_uint64 x = real (unat x)"

definition float64_truncate :: "real \<Rightarrow> int" where
  "float64_truncate x = (if 0 \<le> x then \<lfloor>x\<rfloor> else \<lceil>x\<rceil>)"

definition int64_of_float64 :: "real \<Rightarrow> int64" where
  "int64_of_float64 x = word_of_int (float64_truncate x)"

definition uint64_of_float64 :: "real \<Rightarrow> uint64" where
  "uint64_of_float64 x = word_of_int (float64_truncate x)"

text \<open>Go's \<^verbatim>\<open>/\<close> on \<^verbatim>\<open>int64\<close> truncates towards zero.\<close>

definition int64_div :: "int64 \<Rightarrow> int64 \<Rightarrow> int64" where
  "int64_div a b = word_of_int (sint a sdiv sint b)"



text \<open>The constants \<^verbatim>\<open>tau\<close> (600 ms) and \<^verbatim>\<open>penalty\<close> (10 s), in nanoseconds.\<close>

definition tau :: int64 where
  "tau = 600000000"

definition penalty :: uint64 where
  "penalty = 10000000000"

text \<open>
  The functions of package \<^verbatim>\<open>errors\<close> and the two sentinel errors of package
  \<^verbatim>\<open>context\<close> that the completion callback consults are declared outside the files at
  hand; they are parameters. \<^verbatim>\<open>As_net_Error\<close> stands for
  \<^verbatim>\<open>errors.As(err, &netErr)\<close> with \<^verbatim>\<open>netErr\<close> of type \<^verbatim>\<open>net.Error\<close>.
\<close>

record 'e errors_deps =
  errors_Is :: "'e \<Rightarrow> 'e \<Rightarrow> bool"
  IsServiceUnavailable :: "'e \<Rightarrow> bool"
  IsGatewayTimeout :: "'e \<Rightarrow> bool"
  As_net_Error :: "'e \<Rightarrow> bool"
  DeadlineExceeded :: 'e
  Canceled :: 'e

text \<open>
  An element of the \<^verbatim>\<open>container/list\<close> list \<^verbatim>\<open>inflights\<close> is a heap object; the
  model tells elements apart by a number given at \<^verbatim>\<open>PushBack\<close> and keeps, in
  \<open>next_elem\<close>, the number the next element gets. An element carries its \<^verbatim>\<open>Value\<close>.
\<close>

type_synonym Element = "nat \<times> int64"

record ('n, 'e) Node =
  node :: 'n
  lag :: int64
  success :: uint64
  inflight :: int64
  inflights :: "Element list"
  stamp :: int64
  predictTs :: int64
  predict :: int64
  reqs :: int64
  lastPick :: int64
  errHandler :: "('e \<Rightarrow> bool) option"
  next_elem :: nat

record 'e Builder =
  ErrHandler :: "('e \<Rightarrow> bool) option"

definition Build :: "'e Builder \<Rightarrow> 'n \<Rightarrow> ('n, 'e) Node" where
  "Build b n =
     \<lparr>node = n, lag = 0, success = 1000, inflight = 1, inflights = [],
      stamp = 0, predictTs = 0, predict = 0, reqs = 0, lastPick = 0,
      errHandler = ErrHandler b, next_elem = 0\<rparr>"


text \<open>
  The scan of \<^verbatim>\<open>inflights\<close> in \<^verbatim>\<open>load\<close>: the sum and the number of the requests
  in flight for longer than \<open>avgLag\<close>.
\<close>

fun scan_inflights :: "int64 \<Rightarrow> int64 \<Rightarrow> Element list \<Rightarrow> int64 \<times> nat \<Rightarrow> int64 \<times> nat" where
  "scan_inflights now avgLag [] (total', count') = (total', count')"
| "scan_inflights now avgLag (first # rest) (total', count') =
     (let lag' = now - snd first
      in if avgLag <s lag' then scan_inflights now avgLag rest (total' + lag', count' + 1)
         else scan_inflights now avgLag rest (total', count'))"

text \<open>
  \<^verbatim>\<open>load\<close> at clock reading \<open>now\<close>. It may refresh \<^verbatim>\<open>predictTs\<close> and
  \<^verbatim>\<open>predict\<close>, so it returns the node too. With one caller at a time the
  compare-and-swap on \<^verbatim>\<open>predictTs\<close> finds the value just read and succeeds.
\<close>

definition load :: "int64 \<Rightarrow> ('n, 'e) Node \<Rightarrow> uint64 \<times> ('n, 'e) Node" where
  "load now n =
     (let avgLag = lag n;
          lastPredictTs = predictTs n;
          predictInterval = int64_div avgLag 5;
          predictInterval = (if predictInterval <s 5000000 then 5000000 else predictInterval);
          predictInterval = (if 200000000 <s predictInterval then 200000000 else predictInterval);
          n1 = (if predictInterval <s now - lastPredictTs
                then (let (total', count') = scan_inflights now avgLag (inflights n) (0, 0);
                          predict' = (if count' > length (inflights n) div 2 + 1
                                      then int64_div total' (word_of_nat count') else 0)
                      in n\<lparr>predictTs := now, predict := predict'\<rparr>)
                else n)
      in if avgLag = 0 then (penalty * inflight n1, n1)
         else (let predict' = predict n1;
                   avgLag' = (if avgLag <s predict' then predict' else avgLag)
               in (avgLag' * inflight n1, n1)))"

text \<open>
  \<^verbatim>\<open>Pick\<close> at clock reading \<open>now\<close>: the node afterwards and the list element that the
  returned \<^verbatim>\<open>DoneFunc\<close> holds on to.
\<close>

definition Pick :: "int64 \<Rightarrow> ('n, 'e) Node \<Rightarrow> ('n, 'e) Node \<times> Element" where
  "Pick now n =
     (let e = (next_elem n, now)
      in (n\<lparr>lastPick := now, inflight := inflight n + 1, reqs := reqs n + 1,
            inflights := inflights n @ [e], next_elem := next_elem n + 1\<rparr>, e))"

text \<open>\<^verbatim>\<open>List.Remove\<close> takes an element out if it is in the list and does nothing otherwise.\<close>

definition list_Remove :: "Element \<Rightarrow> Element list \<Rightarrow> Element list" where
  "list_Remove e l = filter (\<lambda>x. fst x \<noteq> fst e) l"

text \<open>The moving-average ratio: \<^verbatim>\<open>math.Exp(float64(-td) / float64(tau))\<close>.\<close>

definition ratio :: "int64 \<Rightarrow> real" where
  "ratio td = exp (float64_of_int64 (- td) / float64_of_int64 tau)"

text \<open>The success sample of one completion: 1000, or 0 for the errors that count.\<close>

definition success_sample :: "'e errors_deps \<Rightarrow> ('e \<Rightarrow> bool) option \<Rightarrow> 'e option \<Rightarrow> uint64" where
  "success_sample E handler err =
     (case err of
        None \<Rightarrow> 1000
      | Some er \<Rightarrow>
          (let success' = (if (case handler of None \<Rightarrow> False | Some h \<Rightarrow> h er) then 0 else 1000)
           in if errors_Is E (DeadlineExceeded E) er \<or> errors_Is E (Canceled E) er
                 \<or> IsServiceUnavailable E er \<or> IsGatewayTimeout E er \<or> As_net_Error E er
              then 0 else success'))"

text \<open>
  The \<^verbatim>\<open>DoneFunc\<close> that \<^verbatim>\<open>Pick\<close> returned with element \<open>e\<close>, called at clock reading
  \<open>now\<close> with \<^verbatim>\<open>di.Err = err\<close>.
\<close>

definition DoneFunc ::
  "'e errors_deps \<Rightarrow> Element \<Rightarrow> int64 \<Rightarrow> 'e option \<Rightarrow> ('n, 'e) Node \<Rightarrow> ('n, 'e) Node" where
  "DoneFunc E e now err n =
     (let n1 = n\<lparr>inflights := list_Remove e (inflights n), inflight := inflight n - 1\<rparr>;
          stamp' = stamp n1;
          n2 = n1\<lparr>stamp := now\<rparr>;
          td = now - stamp';
          td = (if td <s 0 then 0 else td);
          w = ratio td;
          start = snd e;
          lag' = now - start;
          lag' = (if lag' <s 0 then 0 else lag');
          oldLag = lag n2;
          w = (if oldLag = 0 then 0 else w);
          lag' = int64_of_float64 (float64_of_int64 oldLag * w + float64_of_int64 lag' * (1 - w));
          n3 = n2\<lparr>lag := lag'\<rparr>;
          success' = success_sample E (errHandler n3) err;
          oldSuc = success n3;
          success' = uint64_of_float64 (float64_of_uint64 oldSuc * w + float64_of_uint64 success' * (1 - w))
      in n3\<lparr>success := success'\<rparr>)"



text \<open>
  A history of one node: calls of \<^verbatim>\<open>Pick\<close>, and calls of the \<^verbatim>\<open>DoneFunc\<close> that the
  \<open>k\<close>-th \<^verbatim>\<open>Pick\<close> of the history returned (counting from 0). \<open>run\<close> carries the
  node and the elements held by the \<^verbatim>\<open>DoneFunc\<close>s returned so far.
\<close>

datatype 'e event = PickEv int64 | DoneEv nat int64 "'e option"

fun run ::
  "'e errors_deps \<Rightarrow> 'e event list \<Rightarrow> ('n, 'e) Node \<times> Element list \<Rightarrow> ('n, 'e) Node \<times> Element list" where
  "run E [] st = st"
| "run E (PickEv now # evs) (n, ds) = (let (n', e) = Pick now n in run E evs (n', ds @ [e]))"
| "run E (DoneEv k now err # evs) (n, ds) =
     (if k < length ds then run E evs (DoneFunc E (ds ! k) now err n, ds)
      else run E evs (n, ds))"

fun picks :: "'e event list \<Rightarrow> nat" where
  "picks [] = 0"
| "picks (PickEv now # evs) = Suc (picks evs)"
| "picks (DoneEv k now err # evs) = picks evs"

fun dones :: "'e event list \<Rightarrow> nat" where
  "dones [] = 0"
| "dones (PickEv now # evs) = dones evs"
| "dones (DoneEv k now err # evs) = Suc (dones evs)"

text \<open>
  A history is well paired, after \<open>p\<close> picks and with the \<^verbatim>\<open>DoneFunc\<close>s in \<open>called\<close>
  already used, when every \<^verbatim>\<open>DoneFunc\<close> it calls was returned by an earlier
  \<^verbatim>\<open>Pick\<close> and has not been called before.
\<close>

fun well_paired :: "'e event list \<Rightarrow> nat \<Rightarrow> nat list \<Rightarrow> bool" where
  "well_paired [] p called = True"
| "well_paired (PickEv now # evs) p called = well_paired evs (Suc p) called"
| "well_paired (DoneEv k now err # evs) p called =
     (k < p \<and> k \<notin> set called \<and> well_paired evs p (k # called))"


section \<open>Auxiliary notions for the EWMA node\<close>


text \<open>
  Two expressions of \<^const>\<open>DoneFunc\<close> by name: the clamp \<^verbatim>\<open>if x < 0 { x = 0 }\<close> and the
  ratio \<open>w\<close> in force when the averages are updated.
\<close>

definition clamp0 :: "int64 \<Rightarrow> int64" where
  "clamp0 x = (if x <s 0 then 0 else x)"

definition done_w :: "int64 \<Rightarrow> ('n, 'e) Node \<Rightarrow> real" where
  "done_w now n = (if lag n = 0 then 0 else ratio (clamp0 (now - stamp n)))"





text \<open>
  The invariant of a well-paired history: \<open>ds\<close> are the elements handed to the
  \<^verbatim>\<open>DoneFunc\<close>s so far, numbered in order, \<open>called\<close> the ones whose \<^verbatim>\<open>DoneFunc\<close>
  has run; the list holds exactly the others, and \<^verbatim>\<open>inflight\<close> counts them plus one.
\<close>

definition paired_inv :: "('n, 'e) Node \<Rightarrow> Element list \<Rightarrow> nat list \<Rightarrow> bool" where
  "paired_inv n ds called =
     (next_elem n = length ds
      \<and> map fst ds = [0..<length ds]
      \<and> distinct (map fst (inflights n))
      \<and> set (map fst (inflights n)) = {..<length ds} - set called
      \<and> distinct called
      \<and> set called \<subseteq> {..<length ds}
      \<and> inflight n = 1 + (of_nat (length ds) - of_nat (length called)))"

section \<open>Concrete collaborators and inputs\<close>

text \<open>Small instances of the parameters, on which the theorems below are tried.\<close>

definition example_deps :: "(unit, string \<times> string, (string \<times> string) list list) resolver_deps" where
  "example_deps =
     \<lparr>ParseEndpoint = (\<lambda>endpoints scheme. (case endpoints of [] \<Rightarrow> ([], None) | ept # _ \<Rightarrow> (ept, None))),
      Scheme = (\<lambda>scheme secure. scheme),
      Subset = (\<lambda>key inss num. take (nat num) inss),
      NewNode = (\<lambda>scheme addr ins. (scheme, addr)),
      rebalancer_Apply = (\<lambda>ns calls. calls @ [ns])\<rparr>"

definition example_instance :: "string \<Rightarrow> ServiceInstance" where
  "example_instance ept = \<lparr>ID = ''a'', Name = ''svc'', Version = ''v1'', Metadata = [], Endpoints = [ept]\<rparr>"

definition example_resolver :: "int \<Rightarrow> resolver" where
  "example_resolver num = \<lparr>selecterKey = ''k'', subsetSize = num, insecure = True\<rparr>"

definition example_Default :: "(string \<times> nat) list option \<Rightarrow> (unit, string, string \<times> nat, nat, unit) Default" where
  "example_Default ns =
     \<lparr>NodeBuilder = (\<lambda>n. (n, 100)),
      Balancer = (\<lambda>ctx cs. case cs of [] \<Rightarrow> Inl ErrNoAvailable | c # _ \<Rightarrow> Inr (c, 7)),
      nodes = ns\<rparr>"

definition example_ctx :: "(unit, string) Context" where
  "example_ctx = \<lparr>ctx_values = (), ctx_peer = Some None\<rparr>"

definition example_option :: "('v, 'n, 'w) NodeFilter list \<Rightarrow> ('v, 'n, 'w) SelectOption" where
  "example_option fs options = options\<lparr>NodeFilters := fs\<rparr>"

definition example_filter :: "string \<Rightarrow> (unit, string, string \<times> nat) NodeFilter" where
  "example_filter a ctx ns = filter (\<lambda>n. n = AsWeightedNode (a, 100)) ns"

definition example_errors :: "string errors_deps" where
  "example_errors =
     \<lparr>errors_Is = (\<lambda>err target. err = target),
      IsServiceUnavailable = (\<lambda>err. err = ''503''),
      IsGatewayTimeout = (\<lambda>err. err = ''504''),
      As_net_Error = (\<lambda>err. err = ''connection refused''),
      DeadlineExceeded = ''context deadline exceeded'',
      Canceled = ''context canceled''\<rparr>"

text \<open>
  A node that has served requests: one request in flight, started at
  \<open>999500001\<close> ns.
\<close>

definition example_node :: "int64 \<Rightarrow> uint64 \<Rightarrow> int64 \<Rightarrow> (string, string) Node" where
  "example_node l s st =
     (Build \<lparr>ErrHandler = None\<rparr> ''h1:80'')
       \<lparr>lag := l, success := s, inflight := 2, inflights := [(0, 999500001)],
        stamp := st, next_elem := 1\<rparr>"

section \<open>Properties of the registry\<close>

lemma sort_Strings_twice:
  assumes "h ia = Some iv" "h ta = Some tv"
  shows "sort_Strings (sort_Strings h ia) ta ia = Some (iv\<lparr>Endpoints := sort (Endpoints iv)\<rparr>)"
    and "sort_Strings (sort_Strings h ia) ta ta = Some (tv\<lparr>Endpoints := sort (Endpoints tv)\<rparr>)"
  using assms by (auto simp: sort_Strings_def sorted_sort_id)

lemma Equal_store:
  assumes "h ia = Some iv" "h ta = Some tv" "length (Endpoints iv) = length (Endpoints tv)"
  shows "\<exists>b. Equal h (Some ia) (InstancePtr (Some ta)) = Inr (b, sort_Strings (sort_Strings h ia) ta)"
  using assms sort_Strings_twice[OF assms(1,2)]
  by (auto simp add: Equal_def Let_def)

lemma sort_changes: "\<not> sorted xs \<Longrightarrow> sort xs \<noteq> xs"
proof
  assume "\<not> sorted xs" "sort xs = xs"
  moreover have "sorted (sort xs)" by simp
  ultimately show False by simp
qed

text \<open>
  Claim C10. When the receiver and the argument of \<^verbatim>\<open>Equal\<close> point to instances
  whose endpoint slices have the same length, the call returns normally and leaves both
  slices sorted in ascending order: each holds the same strings as before, arranged as
  \<^const>\<open>sort\<close> arranges them, so a slice that was not in ascending order has changed.
  The two pointers may be the same.
\<close>

theorem Equal_sorts_endpoints:
  assumes "h ia = Some iv" "h ta = Some tv" "length (Endpoints iv) = length (Endpoints tv)"
  shows "\<exists>b h' iv' tv'. Equal h (Some ia) (InstancePtr (Some ta)) = Inr (b, h')
          \<and> h' ia = Some iv' \<and> h' ta = Some tv'
          \<and> Endpoints iv' = sort (Endpoints iv) \<and> Endpoints tv' = sort (Endpoints tv)
          \<and> sorted (Endpoints iv') \<and> sorted (Endpoints tv')
          \<and> mset (Endpoints iv') = mset (Endpoints iv) \<and> mset (Endpoints tv') = mset (Endpoints tv)
          \<and> (\<not> sorted (Endpoints iv) \<longrightarrow> Endpoints iv' \<noteq> Endpoints iv)
          \<and> (\<not> sorted (Endpoints tv) \<longrightarrow> Endpoints tv' \<noteq> Endpoints tv)"
proof -
  obtain b where b: "Equal h (Some ia) (InstancePtr (Some ta)) = Inr (b, sort_Strings (sort_Strings h ia) ta)"
    using Equal_store[OF assms] by blast
  show ?thesis
    apply (rule exI[of _ b])
    apply (rule exI[of _ "sort_Strings (sort_Strings h ia) ta"])
    apply (rule exI[of _ "iv\<lparr>Endpoints := sort (Endpoints iv)\<rparr>"])
    apply (rule exI[of _ "tv\<lparr>Endpoints := sort (Endpoints tv)\<rparr>"])
    using b sort_Strings_twice[OF assms(1,2)] by (simp add: sort_changes)
qed

theorem Equal_sorts_endpoints_witness:
  "\<exists>b h' iv' tv'.
     Equal [0 \<mapsto> \<lparr>ID = ''a'', Name = ''svc'', Version = ''v1'', Metadata = [],
                   Endpoints = [''http://h1:80'', ''grpc://h1:90'']\<rparr>,
            1 \<mapsto> \<lparr>ID = ''a'', Name = ''svc'', Version = ''v1'', Metadata = [],
                   Endpoints = [''grpc://h1:90'', ''http://h1:80'']\<rparr>]
           (Some 0) (InstancePtr (Some 1)) = Inr (b, h')
     \<and> h' 0 = Some iv' \<and> h' 1 = Some tv'
     \<and> Endpoints iv' = [''grpc://h1:90'', ''http://h1:80'']
     \<and> Endpoints tv' = [''grpc://h1:90'', ''http://h1:80'']
     \<and> Endpoints iv' \<noteq> [''http://h1:80'', ''grpc://h1:90'']"
proof -
  let ?iv = "\<lparr>ID = ''a'', Name = ''svc'', Version = ''v1'', Metadata = [],
               Endpoints = [''http://h1:80'', ''grpc://h1:90'']\<rparr>"
  let ?tv = "\<lparr>ID = ''a'', Name = ''svc'', Version = ''v1'', Metadata = [],
               Endpoints = [''grpc://h1:90'', ''http://h1:80'']\<rparr>"
  let ?h = "[0 \<mapsto> ?iv, 1 \<mapsto> ?tv] :: instance_store"
  have a: "?h 0 = Some ?iv" and b: "?h 1 = Some ?tv"
    and c: "length (Endpoints ?iv) = length (Endpoints ?tv)"
    by simp_all
  have s1: "sort (Endpoints ?iv) = [''grpc://h1:90'', ''http://h1:80'']"
    and s2: "sort (Endpoints ?tv) = [''grpc://h1:90'', ''http://h1:80'']"
    by simp_all
  from Equal_sorts_endpoints [OF a b c] obtain r h' iv' tv' where
    "Equal ?h (Some 0) (InstancePtr (Some 1)) = Inr (r, h')"
    "h' 0 = Some iv'" "h' 1 = Some tv'"
    "Endpoints iv' = sort (Endpoints ?iv)" "Endpoints tv' = sort (Endpoints ?tv)"
    by blast
  then show ?thesis
    unfolding s1 s2 by (intro exI[of _ r] exI[of _ h'] exI[of _ iv'] exI[of _ tv']) simp
qed


section \<open>Properties of the resolver\<close>

lemma filter_instances_eq: "filter_instances d r services = filter (\<lambda>ins. \<not> discarded d r ins) services"
  by (induction services) (auto simp: discarded_def split: prod.splits option.splits)

lemma filter_instances_all_discarded:
  "list_all (discarded d r) services \<Longrightarrow> filter_instances d r services = []"
  by (simp add: filter_instances_eq list_all_iff)

text \<open>
  Claim C8. When the effective node set of a snapshot is empty, \<^verbatim>\<open>update\<close> returns
  false and leaves the rebalancer as it was: \<^verbatim>\<open>Apply\<close> is not called. When it is not
  empty, \<^verbatim>\<open>update\<close> returns true and the rebalancer is the result of one call of
  \<^verbatim>\<open>Apply\<close> on that set. The effective node set is empty in particular when every
  instance of the snapshot is discarded (an empty snapshot included), provided
  \<^verbatim>\<open>Subset\<close>, if it is called at all, returns nothing for no instances.
\<close>

theorem update_Apply:
  "(effective_nodes d r services = [] \<longrightarrow> update d r services st = (False, st))
   \<and> (effective_nodes d r services \<noteq> [] \<longrightarrow>
        update d r services st = (True, rebalancer_Apply d (effective_nodes d r services) st))
   \<and> (list_all (discarded d r) services
        \<and> (subsetSize r = 0 \<or> Subset d (selecterKey r) [] (subsetSize r) = []) \<longrightarrow>
        update d r services st = (False, st))"
proof -
  have "effective_nodes d r services = []"
    if "list_all (discarded d r) services"
       "subsetSize r = 0 \<or> Subset d (selecterKey r) [] (subsetSize r) = []"
    using that filter_instances_all_discarded[of d r services]
    by (auto simp: effective_nodes_def subset_stage_def build_nodes_def)
  then show ?thesis
    by (auto simp: update_def Let_def)
qed

text \<open>
  Claim C9, as amended. \<^verbatim>\<open>update\<close> passes the filtered instances through
  \<^verbatim>\<open>Subset\<close> exactly when \<open>subsetSize\<close> is not zero, negative sizes included; with
  \<open>subsetSize = 0\<close> the nodes are built from the whole filtered list.
\<close>

theorem Subset_guard:
  "(subsetSize r = 0 \<longrightarrow>
      subset_stage d r filtered = filtered
      \<and> effective_nodes d r services = build_nodes d r (filter_instances d r services))
   \<and> (subsetSize r \<noteq> 0 \<longrightarrow>
      subset_stage d r filtered = Subset d (selecterKey r) filtered (subsetSize r)
      \<and> effective_nodes d r services =
          build_nodes d r (Subset d (selecterKey r) (filter_instances d r services) (subsetSize r)))"
  by (simp add: subset_stage_def effective_nodes_def)

lemma ex_eff1: "effective_nodes example_deps (example_resolver 0) [example_instance ''h1:80''] = [(''http'', ''h1:80'')]"
  by (simp add: effective_nodes_def subset_stage_def build_nodes_def example_deps_def example_instance_def example_resolver_def)

lemma ex_eff2: "effective_nodes example_deps (example_resolver 0) [example_instance []] = []"
  by (simp add: effective_nodes_def subset_stage_def build_nodes_def example_deps_def example_instance_def example_resolver_def)

theorem update_Apply_witness:
  "effective_nodes example_deps (example_resolver 0) [example_instance ''h1:80''] \<noteq> []
   \<and> update example_deps (example_resolver 0) [example_instance ''h1:80''] [[(''http'', ''h0:80'')]]
       = (True, [[(''http'', ''h0:80'')], [(''http'', ''h1:80'')]])
   \<and> list_all (discarded example_deps (example_resolver 0)) [example_instance []]
   \<and> effective_nodes example_deps (example_resolver 0) [example_instance []] = []
   \<and> update example_deps (example_resolver 0) [example_instance []] [[(''http'', ''h0:80'')]]
       = (False, [[(''http'', ''h0:80'')]])"
  using update_Apply [of example_deps "example_resolver 0" "[example_instance ''h1:80'']" "[[(''http'', ''h0:80'')]]"]
    update_Apply [of example_deps "example_resolver 0" "[example_instance []]" "[[(''http'', ''h0:80'')]]"]
  unfolding ex_eff1 ex_eff2
  by (simp add: discarded_def example_deps_def example_instance_def example_resolver_def)

text \<open>
  The claim as stated, with the guard \<open>subsetSize > 0\<close>, fails for a negative size: the
  resolver built with \<open>subsetSize = -1\<close> does call \<^verbatim>\<open>Subset\<close>, which here keeps
  the first \<open>num\<close> instances, so the one instance of the snapshot is lost and nothing is
  applied, where the stated guard would have kept it.
\<close>

theorem Subset_guard_counterexample:
  "subsetSize (example_resolver (- 1)) = - 1
   \<and> filter_instances example_deps (example_resolver (- 1)) [example_instance ''h1:80''] = [example_instance ''h1:80'']
   \<and> subset_stage example_deps (example_resolver (- 1)) [example_instance ''h1:80''] = []
   \<and> subset_stage_spec example_deps (example_resolver (- 1)) [example_instance ''h1:80''] = [example_instance ''h1:80'']
   \<and> subset_stage example_deps (example_resolver (- 1)) [example_instance ''h1:80'']
       \<noteq> subset_stage_spec example_deps (example_resolver (- 1)) [example_instance ''h1:80'']
   \<and> update example_deps (example_resolver (- 1)) [example_instance ''h1:80''] [] = (False, [])"
  by (simp add: update_def effective_nodes_def build_nodes_def subset_stage_def subset_stage_spec_def example_deps_def example_instance_def example_resolver_def)

theorem Subset_guard_witness:
  "subsetSize (example_resolver 0) = 0
   \<and> effective_nodes example_deps (example_resolver 0) [example_instance ''h1:80'', example_instance ''h2:80'']
       = [(''http'', ''h1:80''), (''http'', ''h2:80'')]
   \<and> subsetSize (example_resolver 1) \<noteq> 0
   \<and> effective_nodes example_deps (example_resolver 1) [example_instance ''h1:80'', example_instance ''h2:80'']
       = [(''http'', ''h1:80'')]"
  using Subset_guard [of "example_resolver 0" example_deps "[]" "[example_instance ''h1:80'', example_instance ''h2:80'']"]
    Subset_guard [of "example_resolver 1" example_deps "[]" "[example_instance ''h1:80'', example_instance ''h2:80'']"]
  by (simp add: build_nodes_def example_deps_def example_instance_def example_resolver_def)

section \<open>Properties of the default selector\<close>

lemma run_filters_narrows:
  "list_all (filter_narrows ctx) fs \<Longrightarrow> set (run_filters ctx fs xs) \<subseteq> set xs"
proof (induction fs arbitrary: xs)
  case Nil
  then show ?case by (simp add: run_filters_def)
next
  case (Cons f fs)
  from Cons.prems have fs: "list_all (filter_narrows ctx) fs" by simp
  from Cons.prems have "filter_narrows ctx f" by simp
  then have f: "set (f ctx xs) \<subseteq> set xs" by (simp add: filter_narrows_def)
  have "set (run_filters ctx fs (f ctx xs)) \<subseteq> set (f ctx xs)"
    using Cons.IH[OF fs] .
  with f show ?case by (auto simp: run_filters_def)
qed

lemma assert_WeightedNode_ok:
  "set xs \<subseteq> AsWeightedNode ` S \<Longrightarrow> \<exists>ws. assert_WeightedNode xs = Inr ws \<and> set ws \<subseteq> S \<and> length ws = length xs"
proof (induction xs)
  case Nil
  then show ?case by simp
next
  case (Cons x xs)
  then obtain w where w: "x = AsWeightedNode w" "w \<in> S" by auto
  from Cons obtain ws where "assert_WeightedNode xs = Inr ws" "set ws \<subseteq> S" "length ws = length xs" by auto
  with w show ?case by simp
qed

lemma candidates_of_narrows:
  assumes "list_all (filter_narrows ctx) (NodeFilters (apply_options opts))"
  shows "\<exists>cs. candidates_of ctx opts ns = Inr cs \<and> set cs \<subseteq> set ns"
proof (cases "NodeFilters (apply_options opts) = []")
  case True
  then show ?thesis by (simp add: candidates_of_def)
next
  case False
  have "set (run_filters ctx (NodeFilters (apply_options opts)) (map AsWeightedNode ns))
          \<subseteq> AsWeightedNode ` set ns"
    using run_filters_narrows[OF assms, of "map AsWeightedNode ns"] by simp
  from assert_WeightedNode_ok[OF this] False show ?thesis
    by (auto simp: candidates_of_def Let_def)
qed

text \<open>
  Claim C4. \<^verbatim>\<open>Select\<close> returns \<^verbatim>\<open>ErrNoAvailable\<close>, with no node and no
  \<^verbatim>\<open>DoneFunc\<close>, when no node set has been stored; when the stored node set is empty
  (the filters, if any, returning only nodes they were given, as the filter contract
  says); and when the candidate slice left by the filters is empty. For a candidate slice
  that is not empty it returns what \<^verbatim>\<open>Balancer.Pick\<close> returns on that slice: its error,
  or the raw node of its choice with its \<^verbatim>\<open>DoneFunc\<close>. With filters that keep to the
  contract the type assertions succeed and the candidates come from the stored set.
\<close>

theorem Select_ErrNoAvailable:
  "(nodes d = None \<longrightarrow> Select Raw d ctx opts = (Inr (Inl ErrNoAvailable), ctx))
   \<and> (nodes d = Some [] \<and> list_all (filter_narrows ctx) (NodeFilters (apply_options opts)) \<longrightarrow>
        Select Raw d ctx opts = (Inr (Inl ErrNoAvailable), ctx))
   \<and> (nodes d = Some ns \<and> candidates_of ctx opts ns = Inr [] \<longrightarrow>
        Select Raw d ctx opts = (Inr (Inl ErrNoAvailable), ctx))
   \<and> (nodes d = Some ns \<and> candidates_of ctx opts ns = Inr cs \<and> cs \<noteq> [] \<longrightarrow>
        fst (Select Raw d ctx opts) =
          Inr (case Balancer d ctx cs of
                 Inl err \<Rightarrow> Inl err
               | Inr (wn, done) \<Rightarrow> Inr (Raw wn, done)))
   \<and> (nodes d = Some ns \<and> list_all (filter_narrows ctx) (NodeFilters (apply_options opts)) \<longrightarrow>
        (\<exists>cs. candidates_of ctx opts ns = Inr cs \<and> set cs \<subseteq> set ns))"
proof (intro conjI impI)
  assume "nodes d = None"
  then show "Select Raw d ctx opts = (Inr (Inl ErrNoAvailable), ctx)"
    by (simp add: Select_def)
next
  assume a: "nodes d = Some [] \<and> list_all (filter_narrows ctx) (NodeFilters (apply_options opts))"
  then obtain cs where "candidates_of ctx opts [] = Inr cs" "set cs \<subseteq> set []"
    using candidates_of_narrows[of ctx opts "[]"] by blast
  with a show "Select Raw d ctx opts = (Inr (Inl ErrNoAvailable), ctx)"
    by (simp add: Select_def)
next
  assume "nodes d = Some ns \<and> candidates_of ctx opts ns = Inr []"
  then show "Select Raw d ctx opts = (Inr (Inl ErrNoAvailable), ctx)"
    by (simp add: Select_def)
next
  assume "nodes d = Some ns \<and> candidates_of ctx opts ns = Inr cs \<and> cs \<noteq> []"
  then show "fst (Select Raw d ctx opts) =
          Inr (case Balancer d ctx cs of
                 Inl err \<Rightarrow> Inl err
               | Inr (wn, done) \<Rightarrow> Inr (Raw wn, done))"
    by (simp add: Select_def split: sum.splits prod.splits)
next
  assume "nodes d = Some ns \<and> list_all (filter_narrows ctx) (NodeFilters (apply_options opts))"
  then show "\<exists>cs. candidates_of ctx opts ns = Inr cs \<and> set cs \<subseteq> set ns"
    using candidates_of_narrows by blast
qed


lemma example_filter_narrows: "filter_narrows ctx (example_filter a)"
  by (auto simp add: filter_narrows_def example_filter_def)

lemma ex_opts: "NodeFilters (apply_options [example_option [example_filter a]]) = [example_filter a]"
  by (simp add: apply_options_def example_option_def)

lemma ex_cands1: "candidates_of example_ctx [example_option [example_filter ''c'']] [(''a'', 100), (''b'', 100)] = Inr []"
  by (simp add: candidates_of_def ex_opts run_filters_def example_filter_def)

lemma ex_cands2: "candidates_of example_ctx [example_option [example_filter ''b'']] [(''a'', 100), (''b'', 100)] = Inr [(''b'', 100)]"
  by (simp add: candidates_of_def ex_opts run_filters_def example_filter_def)

theorem Select_ErrNoAvailable_witness:
  "Select fst (example_Default None) example_ctx [] = (Inr (Inl ErrNoAvailable), example_ctx)
   \<and> Select fst (example_Default (Some [])) example_ctx [example_option [example_filter ''b'']]
        = (Inr (Inl ErrNoAvailable), example_ctx)
   \<and> candidates_of example_ctx [example_option [example_filter ''c'']] [(''a'', 100), (''b'', 100)] = Inr []
   \<and> Select fst (example_Default (Some [(''a'', 100), (''b'', 100)])) example_ctx
         [example_option [example_filter ''c'']]
        = (Inr (Inl ErrNoAvailable), example_ctx)
   \<and> candidates_of example_ctx [example_option [example_filter ''b'']] [(''a'', 100), (''b'', 100)]
        = Inr [(''b'', 100)]
   \<and> fst (Select fst (example_Default (Some [(''a'', 100), (''b'', 100)])) example_ctx
         [example_option [example_filter ''b'']])
        = Inr (Inr (''b'', 7))"
  using Select_ErrNoAvailable [of "example_Default None" fst example_ctx "[]" "[]" "[]"]
    Select_ErrNoAvailable [of "example_Default (Some [])" fst example_ctx
      "[example_option [example_filter ''b'']]" "[]" "[]"]
    Select_ErrNoAvailable [of "example_Default (Some [(''a'', 100), (''b'', 100)])" fst example_ctx
      "[example_option [example_filter ''c'']]" "[(''a'', 100), (''b'', 100)]" "[]"]
    Select_ErrNoAvailable [of "example_Default (Some [(''a'', 100), (''b'', 100)])" fst example_ctx
      "[example_option [example_filter ''b'']]" "[(''a'', 100), (''b'', 100)]" "[(''b'', 100)]"]
  unfolding ex_cands1 ex_cands2 ex_opts
  by (simp add: example_Default_def example_filter_narrows)

section \<open>Properties of the EWMA node\<close>

subsection \<open>Words, integers and reals\<close>

lemma sint_word_of_int_64:
  "- (2 ^ 63) \<le> k \<Longrightarrow> k < 2 ^ 63 \<Longrightarrow> sint (word_of_int k :: 64 word) = k"
  by (simp add: sint_sbintrunc' signed_take_bit_int_eq_self)

lemma uint_word_of_int_64:
  "0 \<le> k \<Longrightarrow> k < 2 ^ 64 \<Longrightarrow> uint (word_of_int k :: 64 word) = k"
  by (simp add: uint_word_of_int take_bit_int_eq_self)

lemma sint_bounds_64: "- (2 ^ 63) \<le> sint (x :: 64 word)" "sint (x :: 64 word) < 2 ^ 63"
  using sint_ge[of x] sint_lt[of x] by simp_all

lemma sint_minus_64:
  assumes "0 \<le> sint (x :: 64 word)"
  shows "sint (- x) = - sint x"
proof -
  have "- x = word_of_int (- sint x)" by simp
  moreover have "- (2 ^ 63) \<le> - sint x" "- sint x < 2 ^ 63"
    using assms sint_bounds_64[of x] by simp_all
  ultimately show ?thesis using sint_word_of_int_64[of "- sint x"] by simp
qed


lemma uint_of_nonneg_sint:
  assumes "0 \<le> sint (x :: 64 word)"
  shows "uint x = sint x"
proof -
  have "sint x < 2 ^ 64" using sint_bounds_64(2)[of x] by simp
  from uint_word_of_int_64[OF assms this] show ?thesis by simp
qed



lemma convex_bounds:
  fixes a b w :: real
  assumes "0 \<le> w" "w \<le> 1" "0 \<le> a" "a \<le> m" "0 \<le> b" "b \<le> m"
  shows "0 \<le> a * w + b * (1 - w)" "a * w + b * (1 - w) \<le> m"
proof -
  show "0 \<le> a * w + b * (1 - w)" using assms by simp
  have "a * w \<le> m * w" using assms by (simp add: mult_right_mono)
  moreover have "b * (1 - w) \<le> m * (1 - w)" using assms by (simp add: mult_right_mono)
  ultimately have "a * w + b * (1 - w) \<le> m * w + m * (1 - w)" by simp
  also have "\<dots> = m" by (simp add: algebra_simps)
  finally show "a * w + b * (1 - w) \<le> m" .
qed

lemma truncate_nonneg: "0 \<le> x \<Longrightarrow> float64_truncate x = \<lfloor>x\<rfloor>"
  by (simp add: float64_truncate_def)

subsection \<open>Histories of picks and completions\<close>

lemma DoneFunc_fields:
  "inflights (DoneFunc E e now err n) = list_Remove e (inflights n)"
  "inflight (DoneFunc E e now err n) = inflight n - 1"
  "next_elem (DoneFunc E e now err n) = next_elem n"
  by (simp_all add: DoneFunc_def Let_def)

lemma Pick_fields:
  "inflights (fst (Pick now n)) = inflights n @ [(next_elem n, now)]"
  "inflight (fst (Pick now n)) = inflight n + 1"
  "next_elem (fst (Pick now n)) = Suc (next_elem n)"
  "snd (Pick now n) = (next_elem n, now)"
  by (simp_all add: Pick_def Let_def)

lemma paired_inv_Build: "paired_inv (Build b nd) [] []"
  by (simp add: paired_inv_def Build_def)

lemma paired_inv_Pick:
  assumes "paired_inv n ds called"
  shows "paired_inv (fst (Pick now n)) (ds @ [snd (Pick now n)]) called"
  using assms
  by (auto simp: paired_inv_def Pick_fields)

lemma paired_inv_DoneFunc:
  assumes "paired_inv n ds called" "k < length ds" "k \<notin> set called"
  shows "paired_inv (DoneFunc E (ds ! k) now err n) ds (k # called)"
proof -
  have k: "fst (ds ! k) = k"
    using assms(1,2) nth_map[of k ds fst] by (simp add: paired_inv_def)
  have "map fst (list_Remove (ds ! k) (inflights n)) = filter (\<lambda>j. j \<noteq> k) (map fst (inflights n))"
    by (simp add: list_Remove_def filter_map comp_def k)
  then show ?thesis
    using assms by (auto simp: paired_inv_def DoneFunc_fields)
qed

lemma paired_inv_length:
  assumes "paired_inv n ds called"
  shows "length (inflights n) + length called = length ds"
proof -
  have "length (inflights n) = card (set (map fst (inflights n)))"
    using assms distinct_card[of "map fst (inflights n)"] by (simp add: paired_inv_def)
  also have "\<dots> = card ({..<length ds} - set called)"
    using assms by (simp add: paired_inv_def)
  also have "\<dots> = length ds - card (set called)"
    using assms by (simp add: paired_inv_def card_Diff_subset)
  also have "card (set called) = length called"
    using assms distinct_card[of called] by (simp add: paired_inv_def)
  finally have "length (inflights n) = length ds - length called" .
  moreover have "length called \<le> length ds"
    using assms distinct_card[of called] card_mono[of "{..<length ds}" "set called"]
    by (simp add: paired_inv_def)
  ultimately show ?thesis by simp
qed

lemma run_paired:
  "well_paired evs (length ds) called \<Longrightarrow> paired_inv n ds called \<Longrightarrow>
   \<exists>called'. paired_inv (fst (run E evs (n, ds))) (snd (run E evs (n, ds))) called'
      \<and> length (snd (run E evs (n, ds))) = length ds + picks evs
      \<and> length called' = length called + dones evs"
proof (induction evs arbitrary: n ds called)
  case Nil
  then show ?case by auto
next
  case (Cons ev evs)
  show ?case
  proof (cases ev)
    case (PickEv now)
    have inv: "paired_inv (fst (Pick now n)) (ds @ [snd (Pick now n)]) called"
      using Cons.prems(2) by (rule paired_inv_Pick)
    have wp: "well_paired evs (length (ds @ [snd (Pick now n)])) called"
      using Cons.prems(1) PickEv by simp
    from Cons.IH[OF wp inv] show ?thesis
      using PickEv by (simp add: split_beta Let_def)
  next
    case (DoneEv k now err)
    from Cons.prems(1) DoneEv have k: "k < length ds" "k \<notin> set called"
      and wp: "well_paired evs (length ds) (k # called)"
      by simp_all
    have inv: "paired_inv (DoneFunc E (ds ! k) now err n) ds (k # called)"
      using Cons.prems(2) k by (rule paired_inv_DoneFunc)
    from Cons.IH[OF wp inv] show ?thesis
      using DoneEv k by simp
  qed
qed

text \<open>
  Claim C6. Start from a freshly built node and run any history of \<^verbatim>\<open>Pick\<close> calls
  and \<^verbatim>\<open>DoneFunc\<close> calls in which every \<^verbatim>\<open>DoneFunc\<close> called was returned by an
  earlier \<^verbatim>\<open>Pick\<close> and is called at most once. Then \<^verbatim>\<open>inflight\<close> is 1 plus the
  number of picks minus the number of dones, and \<^verbatim>\<open>inflights\<close> holds one element per
  pick without a done, that is \<^verbatim>\<open>inflight - 1\<close> elements. The first statement is in
  64-bit arithmetic; below \<open>2^63 - 1\<close> picks nothing wraps and it holds of the integers.
\<close>

theorem inflight_conservation:
  assumes "well_paired evs 0 []"
  shows "inflight (fst (run E evs (Build b nd, []))) = 1 + (of_nat (picks evs) - of_nat (dones evs))
    \<and> dones evs \<le> picks evs
    \<and> length (inflights (fst (run E evs (Build b nd, [])))) = picks evs - dones evs
    \<and> of_nat (length (inflights (fst (run E evs (Build b nd, []))))) = inflight (fst (run E evs (Build b nd, []))) - 1
    \<and> (picks evs < 2 ^ 63 - 1 \<longrightarrow>
          sint (inflight (fst (run E evs (Build b nd, [])))) = 1 + (int (picks evs) - int (dones evs))
          \<and> int (length (inflights (fst (run E evs (Build b nd, []))))) = sint (inflight (fst (run E evs (Build b nd, [])))) - 1)"
proof -
  let ?n = "fst (run E evs (Build b nd, []))"
  let ?ds = "snd (run E evs (Build b nd, []))"
  from run_paired[of evs "[]" "[]" "Build b nd" E] assms paired_inv_Build[of b nd]
  obtain called where inv: "paired_inv ?n ?ds called"
    and ds: "length ?ds = picks evs" and called: "length called = dones evs"
    by auto
  from paired_inv_length[OF inv] ds called
  have len: "length (inflights ?n) + dones evs = picks evs" by simp
  then have le: "dones evs \<le> picks evs" by simp
  have infl: "inflight ?n = 1 + (of_nat (picks evs) - of_nat (dones evs))"
    using inv ds called by (simp add: paired_inv_def)
  have lenw: "of_nat (length (inflights ?n)) = inflight ?n - 1"
  proof -
    have "(of_nat (picks evs) :: 64 word) = of_nat (length (inflights ?n)) + of_nat (dones evs)"
      using len of_nat_add[of "length (inflights ?n)" "dones evs", where ?'a = "64 word"] by simp
    then show ?thesis by (simp add: infl)
  qed
  have signed: "sint (inflight ?n) = 1 + (int (picks evs) - int (dones evs))
      \<and> int (length (inflights ?n)) = sint (inflight ?n) - 1"
    if small: "picks evs < 2 ^ 63 - 1"
  proof -
    have "inflight ?n = word_of_int (1 + (int (picks evs) - int (dones evs)))"
      by (simp add: infl)
    moreover have "0 \<le> 1 + (int (picks evs) - int (dones evs))" using le by simp
    moreover have "1 + (int (picks evs) - int (dones evs)) < 2 ^ 63"
      using small le by (simp add: less_diff_conv)
    ultimately have "sint (inflight ?n) = 1 + (int (picks evs) - int (dones evs))"
      using sint_word_of_int_64[of "1 + (int (picks evs) - int (dones evs))"] by simp
    then show ?thesis using len by simp
  qed
  show ?thesis using infl le len lenw signed by simp
qed

theorem inflight_conservation_witness:
  "well_paired [PickEv 10, PickEv 20, DoneEv 0 30 None :: string event] 0 []
   \<and> inflight (fst (run example_errors [PickEv 10, PickEv 20, DoneEv 0 30 None]
                     (Build \<lparr>ErrHandler = None\<rparr> ''h1:80'', []))) = 2
   \<and> length (inflights (fst (run example_errors [PickEv 10, PickEv 20, DoneEv 0 30 None]
                     (Build \<lparr>ErrHandler = None\<rparr> ''h1:80'', [])))) = 1
   \<and> sint (inflight (fst (run example_errors [PickEv 10, PickEv 20, DoneEv 0 30 None]
                     (Build \<lparr>ErrHandler = None\<rparr> ''h1:80'', [])))) = 2"
proof -
  have wp: "well_paired [PickEv 10, PickEv 20, DoneEv 0 30 None :: string event] 0 []"
    by simp
  show ?thesis
    using wp inflight_conservation [OF wp, of example_errors "\<lparr>ErrHandler = None\<rparr>" "''h1:80''"]
    by simp
qed

subsection \<open>The completion callback\<close>

lemma clamp0_nonneg: "0 \<le> sint (clamp0 x)"
  by (simp add: clamp0_def word_sless_alt)


lemma ratio_eq: "0 \<le> sint td \<Longrightarrow> ratio td = exp (- real_of_int (sint td) / 600000000)"
  by (simp add: ratio_def float64_of_int64_def sint_minus_64 tau_def del: of_int_sint)

lemma ratio_range:
  assumes "0 \<le> sint td"
  shows "0 < ratio td \<and> ratio td \<le> 1"
proof -
  have "0 \<le> real_of_int (sint td)" using assms by (simp del: of_int_sint)
  then have "- real_of_int (sint td) / 600000000 \<le> 0" by simp
  then show ?thesis unfolding ratio_eq[OF assms] by simp
qed

lemma done_w_range: "0 \<le> done_w now n \<and> done_w now n \<le> 1"
  using ratio_range[OF clamp0_nonneg, of "now - stamp n"]
  by (simp add: done_w_def)


lemma DoneFunc_success:
  "success (DoneFunc E e now err n) =
     uint64_of_float64 (float64_of_uint64 (success n) * done_w now n
        + float64_of_uint64 (success_sample E (errHandler n) err) * (1 - done_w now n))"
  by (simp add: DoneFunc_def Let_def done_w_def clamp0_def)

lemma success_sample_cases: "success_sample E h err = 0 \<or> success_sample E h err = 1000"
  by (simp add: success_sample_def Let_def split: option.splits)

lemma success_sample_le: "unat (success_sample E h err) \<le> 1000"
  using success_sample_cases[of E h err] by auto



lemma success_value_range:
  assumes "unat s \<le> m" "1000 \<le> m"
  shows "0 \<le> float64_of_uint64 s * done_w now n + float64_of_uint64 (success_sample E h err) * (1 - done_w now n)"
    and "float64_of_uint64 s * done_w now n + float64_of_uint64 (success_sample E h err) * (1 - done_w now n) \<le> real m"
proof -
  have a: "0 \<le> float64_of_uint64 s" "float64_of_uint64 s \<le> real m"
    using assms by (simp_all add: float64_of_uint64_def del: of_nat_unat)
  have "real (unat (success_sample E h err)) \<le> 1000"
    using success_sample_le[of E h err] by (simp del: of_nat_unat)
  then have b: "0 \<le> float64_of_uint64 (success_sample E h err)" "float64_of_uint64 (success_sample E h err) \<le> real m"
    using assms by (simp_all add: float64_of_uint64_def del: of_nat_unat)
  from convex_bounds[OF conjunct1[OF done_w_range[of now n]] conjunct2[OF done_w_range[of now n]] a b]
  show "0 \<le> float64_of_uint64 s * done_w now n + float64_of_uint64 (success_sample E h err) * (1 - done_w now n)"
    and "float64_of_uint64 s * done_w now n + float64_of_uint64 (success_sample E h err) * (1 - done_w now n) \<le> real m"
    by simp_all
qed











lemma example_node_fields:
  "lag (example_node l s st) = l" "success (example_node l s st) = s"
  "stamp (example_node l s st) = st" "errHandler (example_node l s st) = None"
  by (simp_all add: example_node_def Build_def)




text \<open>
  Claim C7. \<^verbatim>\<open>Build\<close> sets \<^verbatim>\<open>success\<close> to 1000, and a \<^verbatim>\<open>DoneFunc\<close> called on a
  node whose \<^verbatim>\<open>success\<close> is at most 1000 stores a value that is at most 1000, whatever
  the error, the clock and the element (so whatever the smoothing factor). The field is
  unsigned: it is never below 0.
\<close>

theorem success_stays_in_range:
  "success (Build b nd) = 1000
   \<and> (success n \<le> 1000 \<longrightarrow> success (DoneFunc E e now err n) \<le> 1000)"
proof (intro conjI impI)
  show "success (Build b nd) = 1000" by (simp add: Build_def)
next
  assume le: "success n \<le> 1000"
  let ?v = "float64_of_uint64 (success n) * done_w now n
              + float64_of_uint64 (success_sample E (errHandler n) err) * (1 - done_w now n)"
  have "unat (success n) \<le> 1000" using le by (simp add: word_le_nat_alt)
  from success_value_range[OF this, of now n E "errHandler n" err]
  have v: "0 \<le> ?v" "?v \<le> 1000" by simp_all
  then have f: "0 \<le> \<lfloor>?v\<rfloor>" "\<lfloor>?v\<rfloor> \<le> 1000"
    by (simp_all add: floor_le_iff le_floor_iff) 
  have "uint (word_of_int \<lfloor>?v\<rfloor> :: 64 word) = \<lfloor>?v\<rfloor>"
    using f by (intro uint_word_of_int_64) simp_all
  then have "(word_of_int \<lfloor>?v\<rfloor> :: 64 word) \<le> 1000"
    using f by (simp add: word_le_def)
  then show "success (DoneFunc E e now err n) \<le> 1000"
    using v by (simp add: DoneFunc_success uint64_of_float64_def truncate_nonneg)
qed

theorem success_stays_in_range_witness:
  "success (example_node 1000000 1000 1000000000) \<le> 1000
   \<and> success (DoneFunc example_errors (0, 999500001) 1000000001 (Some ''503'')
                (example_node 1000000 1000 1000000000)) \<le> 1000"
  using success_stays_in_range [of "\<lparr>ErrHandler = None\<rparr>" "''h1:80''"
      "example_node 1000000 1000 1000000000" example_errors "(0, 999500001)" 1000000001 "Some ''503''"]
  by (auto simp: example_node_fields)







subsection \<open>Load and weight\<close>

lemma load_inflight: "inflight (snd (load now n)) = inflight n" "lag (snd (load now n)) = lag n"
  "success (snd (load now n)) = success n"
  by (simp_all add: load_def Let_def split: prod.splits)
















end
